theory Spec2Isabelle
  imports Main "HOL-Library.Word"
begin

section \<open>Turns, contract violations and the engine interface\<close>

text \<open>
  A turn is identified by its id, an \<^verbatim>\<open>uint\<close> (32 bits). The nodes only ever read
  \<^verbatim>\<open>turn.Id()\<close>; the accessor is called \<open>Id_turn\<close> here because \<open>Id\<close> is the
  identity relation of HOL.
\<close>

record Turn =
  Id_turn :: "32 word"

text \<open>Nodes are heap objects handled through pointers; a pointer is the object's address.\<close>

type_synonym node_id = nat

datatype error = AssertionFailure string

text \<open>
  Modelled from the spec: the macro \<^verbatim>\<open>REACT_ASSERT(condition, message)\<close> of
  \<^verbatim>\<open>react/detail/Defs.h\<close>, which is not among the sources. The specification treats a
  contract violation as a programmer error that terminates with an assertion-style message
  and is not recoverable: a failed assertion ends the computation with the message, a
  passed one continues.
\<close>

definition REACT_ASSERT :: "bool \<Rightarrow> string \<Rightarrow> error + unit" where
  "REACT_ASSERT condition msg = (if condition then Inr () else Inl (AssertionFailure msg))"

text \<open>
  The engine is reached through static hooks (\<^verbatim>\<open>Engine::OnNodePulse(*this, turn)\<close>, ...)
  whose bodies belong to the engine. A node operation is modelled together with the
  sequence of hook calls it makes, in program order. \<open>OpDetach\<close> records the call
  \<^verbatim>\<open>op_.Detach<D>(*this)\<close> of an op node, whose body is in \<^verbatim>\<open>GraphBase.h\<close>.
\<close>

datatype engine_call =
    OnInputChange node_id Turn
  | OnNodePulse node_id Turn
  | OnNodeIdlePulse node_id Turn
  | OnDynamicNodeAttach node_id node_id Turn
  | OnDynamicNodeDetach node_id node_id Turn
  | OnNodeDestroy node_id
  | OpDetach node_id

section \<open>The engine's vertex record (SubtreeEngine.h)\<close>

text \<open>
  The fields of \<^verbatim>\<open>subtree::Node\<close> that its counter operations read and write. The
  levels and the wait count are \<^verbatim>\<open>uint16_t\<close>, the ready count is an
  \<^verbatim>\<open>atomic<uint16_t>\<close>. The successor list, the shift mutex and the flag set take no
  part in these operations and are left out.
\<close>

record Node =
  Level :: "16 word"
  NewLevel :: "16 word"
  WaitCount :: "16 word"
  readyCount :: "16 word"
  shouldUpdate :: bool

definition SetReadyCount :: "int \<Rightarrow> Node \<Rightarrow> Node" where
  "SetReadyCount c n = n\<lparr>readyCount := word_of_int c\<rparr>"

text \<open>
  \<^verbatim>\<open>fetch_add\<close> returns the value before the addition, a \<^verbatim>\<open>uint16_t\<close>. In
  \<^verbatim>\<open>t < (WaitCount - 1)\<close> both operands are promoted to \<^verbatim>\<open>int\<close> before the
  subtraction and the comparison, so both are computed on integers. The stored counter
  wraps modulo \<open>2 ^ 16\<close>. One call is one indivisible step on the record.
\<close>

definition IncReadyCount :: "Node \<Rightarrow> bool \<times> Node" where
  "IncReadyCount n =
     (let t = readyCount n
      in (uint t < uint (WaitCount n) - 1, n\<lparr>readyCount := t + 1\<rparr>))"

definition DecReadyCount :: "Node \<Rightarrow> bool \<times> Node" where
  "DecReadyCount n =
     (let t = readyCount n
      in (uint t > 1, n\<lparr>readyCount := t - 1\<rparr>))"

section \<open>Event stream nodes (EventNodes.h)\<close>

subsection \<open>EventStreamNode\<close>

text \<open>
  The base class holds the event buffer \<^verbatim>\<open>events_\<close> (a vector, modelled as a list
  in insertion order) and the id of the turn the buffer belongs to, \<^verbatim>\<open>curTurnId_\<close>,
  which starts at the largest \<^verbatim>\<open>uint\<close>.
\<close>

record 'e EventStreamNode =
  events :: "'e list"
  curTurnId :: "32 word"

definition EventStreamNode_new :: "'e EventStreamNode" where
  "EventStreamNode_new = \<lparr>events = [], curTurnId = - 1\<rparr>"

text \<open>
  \<^verbatim>\<open>AccessBufferForClearing\<close> runs its argument, under a spin mutex when the domain
  is parallel. The mutual exclusion has no sequential content: the call is the argument.
\<close>

definition AccessBufferForClearing :: "('n \<Rightarrow> 'n) \<Rightarrow> 'n \<Rightarrow> 'n" where
  "AccessBufferForClearing f n = f n"

definition SetCurrentTurn ::
  "Turn \<Rightarrow> bool \<Rightarrow> bool \<Rightarrow> ('e, 'z) EventStreamNode_scheme \<Rightarrow> ('e, 'z) EventStreamNode_scheme"
where
  "SetCurrentTurn turn forceUpdate noClear =
     AccessBufferForClearing (\<lambda>n.
       if curTurnId n \<noteq> Id_turn turn \<or> forceUpdate then
         (let n1 = n\<lparr>curTurnId := Id_turn turn\<rparr>
          in if \<not> noClear then n1\<lparr>events := []\<rparr> else n1)
       else n)"

text \<open>
  Nodes refer to one another through \<^verbatim>\<open>shared_ptr\<close>s, and a node's
  \<^verbatim>\<open>Tick\<close> writes to the nodes it reads (it calls their \<^verbatim>\<open>SetCurrentTurn\<close>). The
  stream part of every node therefore lives in a heap indexed by address, and an operation
  on the object behind a pointer is an update of the heap at that address.
\<close>

type_synonym 'e heap = "node_id \<Rightarrow> 'e EventStreamNode"

definition on_node :: "node_id \<Rightarrow> ('n \<Rightarrow> 'n) \<Rightarrow> (node_id \<Rightarrow> 'n) \<Rightarrow> (node_id \<Rightarrow> 'n)" where
  "on_node p f h = h(p := f (h p))"

definition push_back :: "'e \<Rightarrow> ('e, 'z) EventStreamNode_scheme \<Rightarrow> ('e, 'z) EventStreamNode_scheme" where
  "push_back e n = n\<lparr>events := events n @ [e]\<rparr>"

subsection \<open>EventSourceNode\<close>

record 'e EventSourceNode = "'e EventStreamNode" +
  changedFlag :: bool

definition EventSourceNode_new :: "'e EventSourceNode" where
  "EventSourceNode_new = \<lparr>events = [], curTurnId = - 1, changedFlag = False\<rparr>"

definition EventSourceNode_Tick ::
  "node_id \<Rightarrow> Turn \<Rightarrow> 'e EventSourceNode \<Rightarrow> error + ('e EventSourceNode \<times> engine_call list)"
where
  "EventSourceNode_Tick this turn n =
     (case REACT_ASSERT False (''Ticked EventSourceNode'' @ [CHR 0x0A]) of
        Inl e \<Rightarrow> Inl e
      | Inr _ \<Rightarrow> Inr (n, []))"

definition AddInput :: "'e \<Rightarrow> 'e EventSourceNode \<Rightarrow> 'e EventSourceNode" where
  "AddInput v n =
     (let n1 = (if changedFlag n then (n\<lparr>changedFlag := False\<rparr>)\<lparr>events := []\<rparr> else n)
      in push_back v n1)"

definition ApplyInput ::
  "node_id \<Rightarrow> Turn \<Rightarrow> 'e EventSourceNode \<Rightarrow> bool \<times> 'e EventSourceNode \<times> engine_call list"
where
  "ApplyInput this turn n =
     (if length (events n) > 0 \<and> \<not> changedFlag n then
        (let n1 = SetCurrentTurn turn True True n;
             n2 = n1\<lparr>changedFlag := True\<rparr>
         in (True, n2, [OnInputChange this turn]))
      else (False, n, []))"

subsection \<open>Event operations\<close>

text \<open>
  An op is a tree: its leaves are pointers to event stream nodes, its inner nodes merge,
  filter or transform what their dependencies deliver. (The C++ ops are templates over the
  event types; the model uses one event type throughout.)
\<close>

datatype 'e EventOp =
    EventDep node_id
  | EventMergeOp "'e EventOp list"
  | EventFilterOp "'e \<Rightarrow> bool" "'e EventOp"
  | EventTransformOp "'e \<Rightarrow> 'e" "'e EventOp"

text \<open>
  A collector is a function object called once per event. \<^verbatim>\<open>EventCollector\<close> holds a
  reference to the buffer of the node that ticks and pushes onto it; the other two wrap a
  collector.
\<close>

type_synonym 'e collector = "'e \<Rightarrow> 'e heap \<Rightarrow> 'e heap"

definition EventCollector :: "node_id \<Rightarrow> 'e collector" where
  "EventCollector this e h = on_node this (push_back e) h"

definition FilteredEventCollector :: "('e \<Rightarrow> bool) \<Rightarrow> 'e collector \<Rightarrow> 'e collector" where
  "FilteredEventCollector MyFilter MyCollector e h = (if MyFilter e then MyCollector e h else h)"

definition TransformEventCollector :: "('e \<Rightarrow> 'e) \<Rightarrow> 'e collector \<Rightarrow> 'e collector" where
  "TransformEventCollector MyFunc MyTarget e h = MyTarget (MyFunc e) h"

text \<open>
  \<^verbatim>\<open>Collect\<close> visits the dependencies from left to right. At a leaf it calls
  \<^verbatim>\<open>SetCurrentTurn(turn)\<close> on the dependency and then hands each of its events to the
  collector. \<^verbatim>\<open>CollectRec\<close> of a merge applies the same functor to the nested
  dependencies, and \<^verbatim>\<open>CollectRec\<close> of a filter or a transform calls its
  \<^verbatim>\<open>Collect\<close> with the functor's turn and collector, so both are \<open>Collect\<close> again.
\<close>

fun Collect :: "'e EventOp \<Rightarrow> Turn \<Rightarrow> 'e collector \<Rightarrow> 'e heap \<Rightarrow> 'e heap" where
  "Collect (EventDep depPtr) turn collector h =
     (let h1 = on_node depPtr (SetCurrentTurn turn False False) h
      in fold collector (events (h1 depPtr)) h1)"
| "Collect (EventMergeOp deps) turn collector h =
     fold (\<lambda>dep. Collect dep turn collector) deps h"
| "Collect (EventFilterOp filter_fn dep) turn collector h =
     Collect dep turn (FilteredEventCollector filter_fn collector) h"
| "Collect (EventTransformOp func dep) turn collector h =
     Collect dep turn (TransformEventCollector func collector) h"

subsection \<open>EventOpNode\<close>

text \<open>
  The fields an op node adds to its stream part. \<^verbatim>\<open>StealOp\<close> moves the op out; the
  moved-from value left behind in \<^verbatim>\<open>op_\<close> is not modelled, the field keeps the op.
\<close>

record 'e EventOpNode =
  op_node :: "'e EventOp"
  wasOpStolen :: bool

definition EventOpNode_new :: "'e EventOp \<Rightarrow> 'e EventOpNode" where
  "EventOpNode_new args = \<lparr>op_node = args, wasOpStolen = False\<rparr>"

definition EventOpNode_destructor :: "node_id \<Rightarrow> 'e EventOpNode \<Rightarrow> engine_call list" where
  "EventOpNode_destructor this n =
     (if \<not> wasOpStolen n then [OpDetach this] else []) @ [OnNodeDestroy this]"

definition EventOpNode_Tick ::
  "node_id \<Rightarrow> Turn \<Rightarrow> 'e EventOpNode \<Rightarrow> 'e heap \<Rightarrow> 'e heap \<times> engine_call list"
where
  "EventOpNode_Tick this turn n h =
     (let h1 = on_node this (SetCurrentTurn turn True False) h;
          h2 = Collect (op_node n) turn (EventCollector this) h1
      in (h2, [if \<not> (events (h2 this) = []) then OnNodePulse this turn
               else OnNodeIdlePulse this turn]))"

definition StealOp ::
  "node_id \<Rightarrow> 'e EventOpNode \<Rightarrow> error + ('e EventOp \<times> 'e EventOpNode \<times> engine_call list)"
where
  "StealOp this n =
     (case REACT_ASSERT (wasOpStolen n = False) ''Op was already stolen.'' of
        Inl e \<Rightarrow> Inl e
      | Inr _ \<Rightarrow>
          (let n1 = n\<lparr>wasOpStolen := True\<rparr>
           in Inr (op_node n1, n1, [OpDetach this])))"

subsection \<open>EventFlattenNode\<close>

text \<open>
  A flatten node holds a pointer to the outer signal and one to the current inner event
  stream. The class \<^verbatim>\<open>SignalNode\<close> is only declared in the sources; what \<open>Tick\<close>
  reads from it, \<^verbatim>\<open>outer_->ValueRef().NodePtr()\<close>, is the parameter \<open>NodePtr\<close>: the
  address of the event stream that the signal at a given address currently holds.
\<close>

record EventFlattenNode =
  outer :: node_id
  inner :: node_id

definition EventFlattenNode_Tick ::
  "node_id \<Rightarrow> Turn \<Rightarrow> (node_id \<Rightarrow> node_id) \<Rightarrow> EventFlattenNode \<Rightarrow> 'e heap
     \<Rightarrow> EventFlattenNode \<times> 'e heap \<times> engine_call list"
where
  "EventFlattenNode_Tick this turn NodePtr n h =
     (let h1 = on_node this (SetCurrentTurn turn True False) h;
          h2 = on_node (inner n) (SetCurrentTurn turn False False) h1;
          newInner = NodePtr (outer n)
      in if newInner \<noteq> inner n then
           (let h3 = on_node newInner (SetCurrentTurn turn False False) h2;
                oldInner = inner n;
                n1 = n\<lparr>inner := newInner\<rparr>
            in (n1, h3, [OnDynamicNodeDetach this oldInner turn,
                         OnDynamicNodeAttach this newInner turn]))
         else
           (let h3 = on_node this (\<lambda>s. s\<lparr>events := events s @ events (h2 (inner n))\<rparr>) h2
            in (n, h3, [if length (events (h3 this)) > 0 then OnNodePulse this turn
                        else OnNodeIdlePulse this turn])))"

subsection \<open>SyncedEventFilterNode\<close>

text \<open>
  A synced filter node holds its source, its predicate and the signals the predicate is
  synchronised with. The predicate is applied to an event and the current values of these
  signals, \<^verbatim>\<open>args->ValueRef() ...\<close>; the parameter \<open>ValueRef\<close> gives the current value
  of the signal at an address (the C++ values may differ in type; the model uses one type).
\<close>

record ('e, 'v) SyncedEventFilterNode =
  source :: node_id
  filter_fn :: "'e \<Rightarrow> 'v list \<Rightarrow> bool"
  deps :: "node_id list"

text \<open>The loop over the source's events, with the node's own buffer threaded through.\<close>

fun filter_loop :: "('e \<Rightarrow> bool) \<Rightarrow> 'e list \<Rightarrow> 'e list \<Rightarrow> 'e list" where
  "filter_loop accept [] buf = buf"
| "filter_loop accept (e # es) buf = filter_loop accept es (if accept e then buf @ [e] else buf)"

definition SyncedEventFilterNode_Tick ::
  "node_id \<Rightarrow> Turn \<Rightarrow> (node_id \<Rightarrow> 'v) \<Rightarrow> ('e, 'v) SyncedEventFilterNode \<Rightarrow> 'e heap
     \<Rightarrow> 'e heap \<times> engine_call list"
where
  "SyncedEventFilterNode_Tick this turn ValueRef n h =
     (let h1 = on_node this (SetCurrentTurn turn True False) h;
          h2 = on_node (source n) (SetCurrentTurn turn False False) h1;
          EvalFunctor = (\<lambda>e. filter_fn n e (map ValueRef (deps n)));
          h3 = on_node this
                 (\<lambda>s. s\<lparr>events := filter_loop EvalFunctor (events (h2 (source n))) (events s)\<rparr>) h2
      in (h3, [if \<not> (events (h3 this) = []) then OnNodePulse this turn
               else OnNodeIdlePulse this turn]))"

section \<open>Call sequences\<close>

text \<open>
  The calls a driver makes on an event source between and at turns: it adds input values
  and it applies the input at the start of a turn.
\<close>

datatype 'e input_call = AddInput_call 'e | ApplyInput_call Turn

fun run_input :: "node_id \<Rightarrow> 'e input_call \<Rightarrow> 'e EventSourceNode \<Rightarrow> 'e EventSourceNode" where
  "run_input this (AddInput_call v) n = AddInput v n"
| "run_input this (ApplyInput_call turn) n = fst (snd (ApplyInput this turn n))"

text \<open>
  The values added since the last \<^verbatim>\<open>ApplyInput\<close> of a call sequence, in the order of
  the calls (\<open>acc\<close> holds the values added before the sequence starts).
\<close>

fun added_since_apply :: "'e list \<Rightarrow> 'e input_call list \<Rightarrow> 'e list" where
  "added_since_apply acc [] = acc"
| "added_since_apply acc (AddInput_call v # cs) = added_since_apply (acc @ [v]) cs"
| "added_since_apply acc (ApplyInput_call turn # cs) = added_since_apply [] cs"

text \<open>
  What ties an event source to the values \<open>acc\<close> added since its input was last applied:
  with none added the input is marked as applied or the buffer is empty, otherwise the
  buffer holds exactly these values and the input is not yet applied.
\<close>

definition src_inv :: "'e EventSourceNode \<Rightarrow> 'e list \<Rightarrow> bool" where
  "src_inv n acc = (if acc = [] then changedFlag n \<or> events n = []
                    else events n = acc \<and> \<not> changedFlag n)"

text \<open>
  The accesses to an event buffer that do not force a clear: a reader announces the turn
  with \<^verbatim>\<open>SetCurrentTurn(turn)\<close> before it reads, and a collector pushes an event.
\<close>

datatype 'e buffer_access = Reader_access | Append_access 'e

fun run_access ::
  "Turn \<Rightarrow> 'e buffer_access \<Rightarrow> ('e, 'z) EventStreamNode_scheme \<Rightarrow> ('e, 'z) EventStreamNode_scheme"
where
  "run_access turn Reader_access n = SetCurrentTurn turn False False n"
| "run_access turn (Append_access e) n = push_back e n"

fun appended :: "'e buffer_access list \<Rightarrow> 'e list" where
  "appended [] = []"
| "appended (Reader_access # as) = appended as"
| "appended (Append_access e # as) = e # appended as"

text \<open>
  A small graph for the examples: event streams at the addresses 0 and 1, both last used
  in turn 1, and a predicate that accepts an event above the sum of the signal values.
\<close>

definition example_heap :: "nat heap" where
  "example_heap = (\<lambda>p. EventStreamNode_new)
     (0 := \<lparr>events = [5, 8], curTurnId = 1\<rparr>, 1 := \<lparr>events = [3], curTurnId = 1\<rparr>)"

definition example_accept :: "nat \<Rightarrow> nat list \<Rightarrow> bool" where
  "example_accept e vs = (sum_list vs < e)"

section \<open>Ready-count arithmetic\<close>

lemma unat_max_16: "unat (- 1 :: 16 word) = 65535"
proof -
  have "(- 1 :: 16 word) = 65535" by simp
  moreover have "unat (65535 :: 16 word) = 65535" by simp
  ultimately show ?thesis by (simp only:)
qed

lemma unat_dec_16: "unat (w - 1 :: 16 word) = (if w = 0 then 65535 else unat w - 1)"
  by (simp add: unat_minus_one unat_max_16)

lemma int_lt_pred: "(int a < int b - 1) = (a + 1 < b)"
  by arith

lemma uint_lt_pred_16: "(uint (t :: 16 word) < uint (W :: 16 word) - 1) = (unat t + 1 < unat W)"
  by (simp only: uint_nat int_lt_pred)

lemma int_gt_1: "(1 < int a) = (1 < a)"
  by arith

lemma uint_gt_1_16: "(uint (t :: 16 word) > 1) = (1 < unat t)"
  by (simp only: uint_nat int_gt_1)

lemma uint_lt_wait0: "\<not> (uint (t :: 16 word) < uint (0 :: 16 word) - 1)"
proof -
  have "(0::int) \<le> uint t" by simp
  then have "\<not> uint t < - 1" by linarith
  then show ?thesis by simp
qed

text \<open>
  Claim C6, as amended. \<^verbatim>\<open>DecReadyCount\<close> has no check of its own: it returns whether
  the count before the decrement was greater than 1 and stores the count minus one modulo
  \<open>2 ^ 16\<close>, so a call at ready count 0 stores 65535 and returns false; every other field
  of the vertex is left as it was.
\<close>

theorem DecReadyCount_wraps:
  "fst (DecReadyCount n) = (1 < unat (readyCount n))
   \<and> unat (readyCount (snd (DecReadyCount n)))
       = (if readyCount n = 0 then 65535 else unat (readyCount n) - 1)
   \<and> snd (DecReadyCount n) = n\<lparr>readyCount := readyCount n - 1\<rparr>"
  by (simp add: DecReadyCount_def Let_def uint_gt_1_16 unat_dec_16)

text \<open>
  Claim C6, as stated, fails: on a vertex whose ready count is 0 the call is not detected.
  It returns normally (with the answer false) and leaves the count at 65535.
\<close>

theorem DecReadyCount_underflow_counterexample:
  "DecReadyCount \<lparr>Level = 0, NewLevel = 0, WaitCount = 0, readyCount = 0, shouldUpdate = False\<rparr>
     = (False, \<lparr>Level = 0, NewLevel = 0, WaitCount = 0, readyCount = 65535, shouldUpdate = False\<rparr>)"
  by (simp add: DecReadyCount_def)

text \<open>
  Claim C7. \<^verbatim>\<open>IncReadyCount\<close> adds one to the ready count and returns true exactly
  when the count \<open>t\<close> before the increment satisfies \<open>t < WaitCount - 1\<close> on integers
  (equivalently \<open>t + 1 < WaitCount\<close>), so with a wait count of 0 it returns false whatever
  the count is. \<^verbatim>\<open>DecReadyCount\<close> subtracts one and returns true exactly when the
  count before the decrement is greater than 1.
\<close>

theorem ReadyCount_inc_dec:
  "fst (IncReadyCount n) = (uint (readyCount n) < uint (WaitCount n) - 1)
   \<and> fst (IncReadyCount n) = (unat (readyCount n) + 1 < unat (WaitCount n))
   \<and> snd (IncReadyCount n) = n\<lparr>readyCount := readyCount n + 1\<rparr>
   \<and> (WaitCount n = 0 \<longrightarrow> \<not> fst (IncReadyCount n))
   \<and> fst (DecReadyCount n) = (1 < uint (readyCount n))
   \<and> snd (DecReadyCount n) = n\<lparr>readyCount := readyCount n - 1\<rparr>"
proof -
  have "WaitCount n = 0 \<longrightarrow> \<not> fst (IncReadyCount n)"
    using uint_lt_wait0 [of "readyCount n"] by (simp add: IncReadyCount_def Let_def)
  then show ?thesis
    by (simp add: IncReadyCount_def DecReadyCount_def Let_def uint_lt_pred_16)
qed

theorem ReadyCount_inc_dec_witness:
  "WaitCount \<lparr>Level = 1, NewLevel = 1, WaitCount = 0, readyCount = 3, shouldUpdate = True\<rparr> = 0
   \<and> \<not> fst (IncReadyCount \<lparr>Level = 1, NewLevel = 1, WaitCount = 0, readyCount = 3, shouldUpdate = True\<rparr>)
   \<and> readyCount (snd (IncReadyCount
         \<lparr>Level = 1, NewLevel = 1, WaitCount = 0, readyCount = 3, shouldUpdate = True\<rparr>)) = 4
   \<and> fst (DecReadyCount \<lparr>Level = 1, NewLevel = 1, WaitCount = 0, readyCount = 3, shouldUpdate = True\<rparr>)
   \<and> readyCount (snd (DecReadyCount
         \<lparr>Level = 1, NewLevel = 1, WaitCount = 0, readyCount = 3, shouldUpdate = True\<rparr>)) = 2"
  using ReadyCount_inc_dec
    [of "\<lparr>Level = 1, NewLevel = 1, WaitCount = 0, readyCount = 3, shouldUpdate = True\<rparr>"]
  by simp

section \<open>The event buffer and its turn\<close>

lemma SetCurrentTurn_unfold:
  "SetCurrentTurn turn forceUpdate noClear n =
     (if curTurnId n \<noteq> Id_turn turn \<or> forceUpdate then
        (if noClear then n\<lparr>curTurnId := Id_turn turn\<rparr>
         else n\<lparr>curTurnId := Id_turn turn, events := []\<rparr>)
      else n)"
  by (simp add: SetCurrentTurn_def AccessBufferForClearing_def Let_def)

lemma on_node_apply: "on_node p f h q = (if q = p then f (h p) else h q)"
  by (simp add: on_node_def)

lemma events_forced: "events (SetCurrentTurn turn True False s) = []"
  by (simp add: SetCurrentTurn_unfold)

lemma curTurnId_forced: "curTurnId (SetCurrentTurn turn True False s) = Id_turn turn"
  by (simp add: SetCurrentTurn_unfold)

lemma curTurnId_SetCurrentTurn:
  "curTurnId (SetCurrentTurn turn forceUpdate noClear s) = Id_turn turn"
  by (simp add: SetCurrentTurn_unfold)

lemma SetCurrentTurn_current:
  "curTurnId s = Id_turn turn \<Longrightarrow> SetCurrentTurn turn False noClear s = s"
  by (simp add: SetCurrentTurn_unfold)

lemma events_reader:
  "events (SetCurrentTurn turn False False s)
     = (if curTurnId s = Id_turn turn then events s else [])"
  by (simp add: SetCurrentTurn_unfold)

text \<open>
  Claim C2. \<^verbatim>\<open>SetCurrentTurn(turn, force, noClear)\<close> empties the buffer exactly when
  the stored turn id differs from the turn's or \<open>force\<close> is set, and \<open>noClear\<close> is not
  set; in the first two cases the stored id becomes the turn's id, otherwise the node is
  left as it is. The fields of derived classes are never touched. (Emptying is visible on
  a buffer that holds events, which is where the equivalence is stated.)
\<close>

theorem SetCurrentTurn_clears_iff:
  "events (SetCurrentTurn turn forceUpdate noClear n)
     = (if (curTurnId n \<noteq> Id_turn turn \<or> forceUpdate) \<and> \<not> noClear then [] else events n)
   \<and> curTurnId (SetCurrentTurn turn forceUpdate noClear n)
     = (if curTurnId n \<noteq> Id_turn turn \<or> forceUpdate then Id_turn turn else curTurnId n)
   \<and> EventStreamNode.more (SetCurrentTurn turn forceUpdate noClear n) = EventStreamNode.more n
   \<and> (\<not> (curTurnId n \<noteq> Id_turn turn \<or> forceUpdate)
        \<longrightarrow> SetCurrentTurn turn forceUpdate noClear n = n)
   \<and> (events n \<noteq> []
        \<longrightarrow> (events (SetCurrentTurn turn forceUpdate noClear n) = [])
            = ((curTurnId n \<noteq> Id_turn turn \<or> forceUpdate) \<and> \<not> noClear))"
  by (simp add: SetCurrentTurn_unfold)

theorem SetCurrentTurn_clears_iff_witness:
  "events \<lparr>events = [1::nat, 2], curTurnId = 7\<rparr> \<noteq> []
   \<and> SetCurrentTurn \<lparr>Id_turn = 7\<rparr> False False \<lparr>events = [1::nat, 2], curTurnId = 7\<rparr>
       = \<lparr>events = [1::nat, 2], curTurnId = 7\<rparr>
   \<and> SetCurrentTurn \<lparr>Id_turn = 7\<rparr> True False \<lparr>events = [1::nat, 2], curTurnId = 7\<rparr>
       = \<lparr>events = [], curTurnId = 7\<rparr>
   \<and> SetCurrentTurn \<lparr>Id_turn = 8\<rparr> False True \<lparr>events = [1::nat, 2], curTurnId = 7\<rparr>
       = \<lparr>events = [1, 2], curTurnId = 8\<rparr>"
  using SetCurrentTurn_clears_iff
    [of "\<lparr>Id_turn = 7\<rparr>" False False "\<lparr>events = [1::nat, 2], curTurnId = 7\<rparr>"]
    SetCurrentTurn_clears_iff
    [of "\<lparr>Id_turn = 7\<rparr>" True False "\<lparr>events = [1::nat, 2], curTurnId = 7\<rparr>"]
    SetCurrentTurn_clears_iff
    [of "\<lparr>Id_turn = 8\<rparr>" False True "\<lparr>events = [1::nat, 2], curTurnId = 7\<rparr>"]
  by (simp add: SetCurrentTurn_unfold)

lemma run_access_current:
  "curTurnId s = Id_turn turn \<Longrightarrow>
     curTurnId (run_access turn a s) = Id_turn turn
     \<and> events (run_access turn a s) = events s @ appended [a]"
  by (cases a) (simp_all add: SetCurrentTurn_current push_back_def)

lemma fold_run_access:
  "curTurnId s = Id_turn turn \<Longrightarrow>
     events (fold (run_access turn) as s) = events s @ appended as"
proof (induction as arbitrary: s)
  case Nil
  then show ?case by simp
next
  case (Cons a as)
  have step: "curTurnId (run_access turn a s) = Id_turn turn"
    and ev: "events (run_access turn a s) = events s @ appended [a]"
    using run_access_current [OF Cons.prems] by simp_all
  have "events (fold (run_access turn) as (run_access turn a s))
          = events (run_access turn a s) @ appended as"
    by (rule Cons.IH [OF step])
  then show ?case using ev by (cases a) simp_all
qed

lemma forced_forgets_buffer:
  "SetCurrentTurn turn True False (s\<lparr>events := xs\<rparr>) = SetCurrentTurn turn True False s"
  by (simp add: SetCurrentTurn_unfold)

lemma on_node_forced_forgets:
  "on_node this (SetCurrentTurn turn True False) (h(this := (h this)\<lparr>events := xs\<rparr>))
     = on_node this (SetCurrentTurn turn True False) h"
  by (simp add: on_node_def forced_forgets_buffer)

text \<open>
  Claim C4, as amended. Once \<^verbatim>\<open>SetCurrentTurn\<close> has been called on a vertex for a turn
  (forced or not), the accesses of that turn that do not force a clear, which are the
  readers' \<^verbatim>\<open>SetCurrentTurn(turn)\<close> and the pushes, leave what the buffer holds in place
  and only append to it. A forced call without \<open>noClear\<close>, the first statement of every
  \<open>Tick\<close>, empties the buffer each time it runs: the result of an op node's \<open>Tick\<close>
  does not depend on what its buffer held before, events of the same turn included.
\<close>

theorem buffer_cleared_on_first_use_only:
  "events (fold (run_access turn) as (SetCurrentTurn turn forceUpdate noClear n))
     = events (SetCurrentTurn turn forceUpdate noClear n) @ appended as
   \<and> events (SetCurrentTurn turn True False n) = []
   \<and> EventOpNode_Tick this turn opn (h(this := (h this)\<lparr>events := xs\<rparr>))
       = EventOpNode_Tick this turn opn h"
  by (simp add: fold_run_access curTurnId_SetCurrentTurn events_forced
      EventOpNode_Tick_def on_node_forced_forgets)

theorem buffer_cleared_on_first_use_only_witness:
  "events (fold (run_access \<lparr>Id_turn = 2\<rparr>) [Append_access 7, Reader_access, Append_access 9]
      (SetCurrentTurn \<lparr>Id_turn = 2\<rparr> False False \<lparr>events = [5::nat], curTurnId = 1\<rparr>)) = [7, 9]
   \<and> events (SetCurrentTurn \<lparr>Id_turn = 2\<rparr> True False \<lparr>events = [5::nat], curTurnId = 2\<rparr>) = []"
  using buffer_cleared_on_first_use_only
    [of "\<lparr>Id_turn = 2\<rparr>" "[Append_access 7, Reader_access, Append_access 9]" False False
        "\<lparr>events = [5::nat], curTurnId = 1\<rparr>"]
    buffer_cleared_on_first_use_only
    [of "\<lparr>Id_turn = 2\<rparr>" "[]" False False "\<lparr>events = [5::nat], curTurnId = 2\<rparr>"]
  by (simp add: SetCurrentTurn_unfold push_back_def)

text \<open>
  Claim C4, as stated, fails. In turn 2 a reader's \<^verbatim>\<open>SetCurrentTurn(turn)\<close> clears
  the stale buffer, the event 7 is pushed, and the forced \<^verbatim>\<open>SetCurrentTurn(turn, true)\<close>
  of a \<open>Tick\<close> in the same turn clears the buffer a second time and drops the 7.
  Likewise an op node ticked twice in turn 1 holds after the second \<open>Tick\<close> what it held
  after the first, not the events of both.
\<close>

theorem buffer_cleared_twice_counterexample:
  "events (SetCurrentTurn \<lparr>Id_turn = 2\<rparr> False False \<lparr>events = [5::nat], curTurnId = 1\<rparr>) = []
   \<and> push_back 7 (SetCurrentTurn \<lparr>Id_turn = 2\<rparr> False False \<lparr>events = [5::nat], curTurnId = 1\<rparr>)
       = \<lparr>events = [7], curTurnId = 2\<rparr>
   \<and> SetCurrentTurn \<lparr>Id_turn = 2\<rparr> True False \<lparr>events = [7::nat], curTurnId = 2\<rparr>
       = \<lparr>events = [], curTurnId = 2\<rparr>
   \<and> events (fst (EventOpNode_Tick 1 \<lparr>Id_turn = 1\<rparr>
                     (EventOpNode_new (EventTransformOp Suc (EventDep 0))) example_heap) 1) = [6, 9]
   \<and> events (fst (EventOpNode_Tick 1 \<lparr>Id_turn = 1\<rparr>
                     (EventOpNode_new (EventTransformOp Suc (EventDep 0)))
                     (fst (EventOpNode_Tick 1 \<lparr>Id_turn = 1\<rparr>
                        (EventOpNode_new (EventTransformOp Suc (EventDep 0))) example_heap))) 1)
       = [6, 9]"
  by (simp add: EventOpNode_Tick_def EventOpNode_new_def example_heap_def Let_def on_node_def
      SetCurrentTurn_unfold EventCollector_def TransformEventCollector_def push_back_def)

section \<open>Event sources\<close>

text \<open>
  Claim C1. \<^verbatim>\<open>ApplyInput\<close> returns true exactly when the buffer is not empty and the
  changed flag is not set. It calls \<^verbatim>\<open>OnInputChange\<close> (once) exactly when it returns
  true; then the buffer is kept, the flag is set and the stored turn id is the turn's.
  When it returns false the node is left as it is.
\<close>

theorem ApplyInput_result:
  "fst (ApplyInput this turn n) = (events n \<noteq> [] \<and> \<not> changedFlag n)
   \<and> snd (snd (ApplyInput this turn n))
       = (if fst (ApplyInput this turn n) then [OnInputChange this turn] else [])
   \<and> (fst (ApplyInput this turn n)
        \<longrightarrow> fst (snd (ApplyInput this turn n)) = n\<lparr>curTurnId := Id_turn turn, changedFlag := True\<rparr>)
   \<and> (\<not> fst (ApplyInput this turn n) \<longrightarrow> fst (snd (ApplyInput this turn n)) = n)"
  by (simp add: ApplyInput_def SetCurrentTurn_unfold Let_def)

theorem ApplyInput_result_witness:
  "fst (ApplyInput 0 \<lparr>Id_turn = 3\<rparr> \<lparr>events = [5::nat], curTurnId = 2, changedFlag = False\<rparr>)
   \<and> ApplyInput 0 \<lparr>Id_turn = 3\<rparr> \<lparr>events = [5::nat], curTurnId = 2, changedFlag = False\<rparr>
       = (True, \<lparr>events = [5], curTurnId = 3, changedFlag = True\<rparr>, [OnInputChange 0 \<lparr>Id_turn = 3\<rparr>])
   \<and> \<not> fst (ApplyInput 0 \<lparr>Id_turn = 4\<rparr> \<lparr>events = [5::nat], curTurnId = 3, changedFlag = True\<rparr>)
   \<and> ApplyInput 0 \<lparr>Id_turn = 4\<rparr> \<lparr>events = [5::nat], curTurnId = 3, changedFlag = True\<rparr>
       = (False, \<lparr>events = [5], curTurnId = 3, changedFlag = True\<rparr>, [])"
  using ApplyInput_result
    [of 0 "\<lparr>Id_turn = 3\<rparr>" "\<lparr>events = [5::nat], curTurnId = 2, changedFlag = False\<rparr>"]
    ApplyInput_result
    [of 0 "\<lparr>Id_turn = 4\<rparr>" "\<lparr>events = [5::nat], curTurnId = 3, changedFlag = True\<rparr>"]
  by (simp add: prod_eq_iff)

lemma AddInput_unfold:
  "AddInput v n = (if changedFlag n then n\<lparr>changedFlag := False, events := [v]\<rparr>
                   else n\<lparr>events := events n @ [v]\<rparr>)"
  by (simp add: AddInput_def push_back_def Let_def)

lemma src_inv_AddInput: "src_inv n acc \<Longrightarrow> src_inv (AddInput v n) (acc @ [v])"
  by (auto simp: src_inv_def AddInput_unfold split: if_splits)

lemma src_inv_ApplyInput: "src_inv n acc \<Longrightarrow> src_inv (fst (snd (ApplyInput this turn n))) []"
  by (auto simp: src_inv_def ApplyInput_def SetCurrentTurn_unfold Let_def split: if_splits)

lemma src_inv_fold:
  "src_inv n acc \<Longrightarrow> src_inv (fold (run_input this) cs n) (added_since_apply acc cs)"
proof (induction cs arbitrary: n acc)
  case Nil
  then show ?case by simp
next
  case (Cons c cs)
  show ?case
  proof (cases c)
    case (AddInput_call v)
    then show ?thesis using Cons.IH [OF src_inv_AddInput [OF Cons.prems, of v]] by simp
  next
    case (ApplyInput_call turn)
    then show ?thesis using Cons.IH [OF src_inv_ApplyInput [OF Cons.prems, of this turn]] by simp
  qed
qed

lemma fold_run_input_new:
  "added_since_apply [] cs \<noteq> [] \<Longrightarrow>
     events (fold (run_input this) cs EventSourceNode_new) = added_since_apply [] cs"
proof -
  have "src_inv EventSourceNode_new []"
    by (simp add: src_inv_def EventSourceNode_new_def)
  then have "src_inv (fold (run_input this) cs EventSourceNode_new) (added_since_apply [] cs)"
    by (rule src_inv_fold)
  moreover assume "added_since_apply [] cs \<noteq> []"
  ultimately show ?thesis by (simp add: src_inv_def)
qed

lemma fold_AddInput_changed:
  "changedFlag n \<Longrightarrow> vs \<noteq> [] \<Longrightarrow>
     events (fold AddInput vs n) = vs \<and> \<not> changedFlag (fold AddInput vs n)"
proof (induction vs rule: rev_induct)
  case Nil
  then show ?case by simp
next
  case (snoc v vs)
  show ?case
  proof (cases "vs = []")
    case True
    then show ?thesis using snoc.prems by (simp add: AddInput_unfold)
  next
    case False
    then show ?thesis using snoc by (simp add: AddInput_unfold)
  qed
qed

text \<open>
  Claim C9. On a source whose changed flag is set, \<^verbatim>\<open>AddInput\<close> resets the flag,
  empties the buffer and then appends the value; otherwise it only appends. So after one
  or more \<^verbatim>\<open>AddInput\<close> calls on a source whose input had been applied the buffer
  holds exactly the values added, in the order of the calls; and over any sequence of
  \<^verbatim>\<open>AddInput\<close> and \<^verbatim>\<open>ApplyInput\<close> calls on a new source, whenever values have been
  added since the last \<^verbatim>\<open>ApplyInput\<close>, the buffer holds exactly these values in order.
\<close>

theorem AddInput_buffer:
  "(changedFlag n \<longrightarrow> AddInput v n = n\<lparr>changedFlag := False, events := [v]\<rparr>)
   \<and> (\<not> changedFlag n \<longrightarrow> AddInput v n = n\<lparr>events := events n @ [v]\<rparr>)
   \<and> (changedFlag n \<and> vs \<noteq> [] \<longrightarrow> events (fold AddInput vs n) = vs)
   \<and> (added_since_apply [] cs \<noteq> [] \<longrightarrow>
        events (fold (run_input this) cs EventSourceNode_new) = added_since_apply [] cs)"
  using fold_AddInput_changed [of n vs] fold_run_input_new [of cs this]
  by (simp add: AddInput_unfold)

theorem AddInput_buffer_witness:
  "changedFlag \<lparr>events = [1::nat, 2], curTurnId = 3, changedFlag = True\<rparr>
   \<and> AddInput 9 \<lparr>events = [1::nat, 2], curTurnId = 3, changedFlag = True\<rparr>
       = \<lparr>events = [9], curTurnId = 3, changedFlag = False\<rparr>
   \<and> AddInput 4 \<lparr>events = [9::nat], curTurnId = 3, changedFlag = False\<rparr>
       = \<lparr>events = [9, 4], curTurnId = 3, changedFlag = False\<rparr>
   \<and> events (fold AddInput [4, 5] \<lparr>events = [1::nat, 2], curTurnId = 3, changedFlag = True\<rparr>)
       = [4, 5]
   \<and> added_since_apply []
        [AddInput_call (1::nat), ApplyInput_call \<lparr>Id_turn = 0\<rparr>, AddInput_call 2, AddInput_call 3]
       = [2, 3]
   \<and> events (fold (run_input 0)
        [AddInput_call (1::nat), ApplyInput_call \<lparr>Id_turn = 0\<rparr>, AddInput_call 2, AddInput_call 3]
        EventSourceNode_new) = [2, 3]"
  using AddInput_buffer
    [of "\<lparr>events = [1::nat, 2], curTurnId = 3, changedFlag = True\<rparr>" 9 "[4, 5]"
        "[AddInput_call (1::nat), ApplyInput_call \<lparr>Id_turn = 0\<rparr>, AddInput_call 2, AddInput_call 3]" 0]
    AddInput_buffer
    [of "\<lparr>events = [9::nat], curTurnId = 3, changedFlag = False\<rparr>" 4 "[]" "[]" 0]
  by simp

text \<open>
  Claim C10. \<open>Tick\<close> of an event source fails its assertion whatever the node and the
  turn are: it ends with the message \<open>Ticked EventSourceNode\<close> and a line feed, and so
  never returns a node or makes an engine call.
\<close>

theorem EventSourceNode_Tick_asserts:
  "EventSourceNode_Tick this turn n
     = Inl (AssertionFailure (''Ticked EventSourceNode'' @ [CHR 0x0A]))
   \<and> isl (EventSourceNode_Tick this turn n)"
  by (simp add: EventSourceNode_Tick_def REACT_ASSERT_def)

theorem EventSourceNode_Tick_asserts_witness:
  "EventSourceNode_Tick 0 \<lparr>Id_turn = 1\<rparr> \<lparr>events = [5::nat], curTurnId = 1, changedFlag = True\<rparr>
     = Inl (AssertionFailure (''Ticked EventSourceNode'' @ [CHR 0x0A]))"
  using EventSourceNode_Tick_asserts
    [of 0 "\<lparr>Id_turn = 1\<rparr>" "\<lparr>events = [5::nat], curTurnId = 1, changedFlag = True\<rparr>"]
  by simp

section \<open>Op nodes\<close>

text \<open>
  Claim C8. On an op node whose op has not been stolen, \<^verbatim>\<open>StealOp\<close> sets the stolen
  mark, detaches the op from the node and returns the op. On a node whose op has been
  stolen, and so on the node a first call leaves, \<^verbatim>\<open>StealOp\<close> fails its assertion with
  the message \<open>Op was already stolen.\<close> The destructor of a node whose op was stolen
  only reports the destruction, whereas it first detaches the op when it was not stolen.
\<close>

theorem StealOp_once:
  "(\<not> wasOpStolen n \<longrightarrow>
      StealOp this n = Inr (op_node n, n\<lparr>wasOpStolen := True\<rparr>, [OpDetach this]))
   \<and> (wasOpStolen n \<longrightarrow> StealOp this n = Inl (AssertionFailure ''Op was already stolen.''))
   \<and> StealOp this (n\<lparr>wasOpStolen := True\<rparr>) = Inl (AssertionFailure ''Op was already stolen.'')
   \<and> EventOpNode_destructor this (n\<lparr>wasOpStolen := True\<rparr>) = [OnNodeDestroy this]
   \<and> (\<not> wasOpStolen n \<longrightarrow> EventOpNode_destructor this n = [OpDetach this, OnNodeDestroy this])"
  by (simp add: StealOp_def REACT_ASSERT_def EventOpNode_destructor_def Let_def)

theorem StealOp_once_witness:
  "\<not> wasOpStolen (EventOpNode_new (EventMergeOp [EventDep 0, EventDep 1]) :: nat EventOpNode)
   \<and> StealOp 2 (EventOpNode_new (EventMergeOp [EventDep 0, EventDep 1]) :: nat EventOpNode)
       = Inr (EventMergeOp [EventDep 0, EventDep 1],
              \<lparr>op_node = EventMergeOp [EventDep 0, EventDep 1], wasOpStolen = True\<rparr>,
              [OpDetach 2])
   \<and> wasOpStolen (\<lparr>op_node = EventMergeOp [EventDep 0, EventDep 1], wasOpStolen = True\<rparr>
                    :: nat EventOpNode)
   \<and> StealOp 2 (\<lparr>op_node = EventMergeOp [EventDep 0, EventDep 1], wasOpStolen = True\<rparr>
                    :: nat EventOpNode)
       = Inl (AssertionFailure ''Op was already stolen.'')
   \<and> EventOpNode_destructor 2
        (\<lparr>op_node = EventMergeOp [EventDep 0, EventDep 1], wasOpStolen = True\<rparr> :: nat EventOpNode)
       = [OnNodeDestroy 2]"
  using StealOp_once [of "EventOpNode_new (EventMergeOp [EventDep 0, EventDep 1]) :: nat EventOpNode" 2]
    StealOp_once
      [of "\<lparr>op_node = EventMergeOp [EventDep 0, EventDep 1], wasOpStolen = True\<rparr> :: nat EventOpNode" 2]
  by (simp add: EventOpNode_new_def)

section \<open>Flatten and synced filter nodes\<close>

lemma filter_loop_append: "filter_loop accept es buf = buf @ filter accept es"
  by (induction es arbitrary: buf) simp_all

text \<open>
  Claim C3. \<open>Tick\<close> of a flatten node takes one of two paths. If the node the outer
  signal holds differs from the stored inner, the new inner is stored, the engine is told
  of the detachment from the old inner and then of the attachment to the new one, and
  nothing else: no pulse and no idle pulse. Otherwise the stored inner stays, the node's
  buffer (emptied at the start of \<open>Tick\<close>) receives the inner's events of this turn in
  their order, and the one engine call is \<^verbatim>\<open>OnNodePulse\<close> when the buffer is then not
  empty and \<^verbatim>\<open>OnNodeIdlePulse\<close> when it is.
\<close>

theorem EventFlattenNode_Tick_paths:
  "(NodePtr (outer n) \<noteq> inner n \<longrightarrow>
      fst (EventFlattenNode_Tick this turn NodePtr n h) = n\<lparr>inner := NodePtr (outer n)\<rparr>
      \<and> snd (snd (EventFlattenNode_Tick this turn NodePtr n h))
          = [OnDynamicNodeDetach this (inner n) turn,
             OnDynamicNodeAttach this (NodePtr (outer n)) turn])
   \<and> (NodePtr (outer n) = inner n \<longrightarrow>
      fst (EventFlattenNode_Tick this turn NodePtr n h) = n
      \<and> events (fst (snd (EventFlattenNode_Tick this turn NodePtr n h)) this)
          = (if inner n = this then []
             else events (SetCurrentTurn turn False False (h (inner n))))
      \<and> events (fst (snd (EventFlattenNode_Tick this turn NodePtr n h)) this)
          = events (fst (snd (EventFlattenNode_Tick this turn NodePtr n h)) (inner n))
      \<and> snd (snd (EventFlattenNode_Tick this turn NodePtr n h))
          = [if events (fst (snd (EventFlattenNode_Tick this turn NodePtr n h)) this) = []
             then OnNodeIdlePulse this turn else OnNodePulse this turn])"
  by (simp add: EventFlattenNode_Tick_def Let_def on_node_apply events_forced
      curTurnId_forced SetCurrentTurn_current)

theorem EventFlattenNode_Tick_paths_witness:
  "Suc (outer \<lparr>outer = 2, inner = 0\<rparr>) \<noteq> inner \<lparr>outer = 2, inner = 0\<rparr>
   \<and> fst (EventFlattenNode_Tick 1 \<lparr>Id_turn = 1\<rparr> Suc \<lparr>outer = 2, inner = 0\<rparr> example_heap)
       = \<lparr>outer = 2, inner = 3\<rparr>
   \<and> snd (snd (EventFlattenNode_Tick 1 \<lparr>Id_turn = 1\<rparr> Suc \<lparr>outer = 2, inner = 0\<rparr> example_heap))
       = [OnDynamicNodeDetach 1 0 \<lparr>Id_turn = 1\<rparr>, OnDynamicNodeAttach 1 3 \<lparr>Id_turn = 1\<rparr>]
   \<and> id (outer \<lparr>outer = 0, inner = 0\<rparr>) = inner \<lparr>outer = 0, inner = 0\<rparr>
   \<and> events (fst (snd (EventFlattenNode_Tick 1 \<lparr>Id_turn = 1\<rparr> id \<lparr>outer = 0, inner = 0\<rparr>
                          example_heap)) 1) = [5, 8]
   \<and> snd (snd (EventFlattenNode_Tick 1 \<lparr>Id_turn = 1\<rparr> id \<lparr>outer = 0, inner = 0\<rparr> example_heap))
       = [OnNodePulse 1 \<lparr>Id_turn = 1\<rparr>]
   \<and> snd (snd (EventFlattenNode_Tick 1 \<lparr>Id_turn = 2\<rparr> id \<lparr>outer = 0, inner = 0\<rparr> example_heap))
       = [OnNodeIdlePulse 1 \<lparr>Id_turn = 2\<rparr>]"
  using EventFlattenNode_Tick_paths
      [of Suc "\<lparr>outer = 2, inner = 0\<rparr>" 1 "\<lparr>Id_turn = 1\<rparr>" example_heap]
    EventFlattenNode_Tick_paths
      [of id "\<lparr>outer = 0, inner = 0\<rparr>" 1 "\<lparr>Id_turn = 1\<rparr>" example_heap]
    EventFlattenNode_Tick_paths
      [of id "\<lparr>outer = 0, inner = 0\<rparr>" 1 "\<lparr>Id_turn = 2\<rparr>" example_heap]
  by (simp add: example_heap_def SetCurrentTurn_unfold)

text \<open>
  Claim C5. After \<open>Tick\<close> the buffer of a synced filter node holds exactly those of the
  source's events of this turn (the source's buffer after its \<^verbatim>\<open>SetCurrentTurn(turn)\<close>,
  which is empty when the buffer was left from another turn) that the predicate accepts
  together with the current values of the signals, in the source's order. The one engine
  call is \<^verbatim>\<open>OnNodeIdlePulse\<close> when no event was accepted and \<^verbatim>\<open>OnNodePulse\<close> otherwise.
\<close>

theorem SyncedEventFilterNode_Tick_result:
  "events (fst (SyncedEventFilterNode_Tick this turn ValueRef n h) this)
     = filter (\<lambda>e. filter_fn n e (map ValueRef (deps n)))
         (if source n = this then []
          else events (SetCurrentTurn turn False False (h (source n))))
   \<and> events (SetCurrentTurn turn False False (h (source n)))
     = (if curTurnId (h (source n)) = Id_turn turn then events (h (source n)) else [])
   \<and> snd (SyncedEventFilterNode_Tick this turn ValueRef n h)
     = [if events (fst (SyncedEventFilterNode_Tick this turn ValueRef n h) this) = []
        then OnNodeIdlePulse this turn else OnNodePulse this turn]"
  by (simp add: SyncedEventFilterNode_Tick_def Let_def on_node_apply events_forced
      curTurnId_forced SetCurrentTurn_current filter_loop_append events_reader)

theorem SyncedEventFilterNode_Tick_result_witness:
  "SyncedEventFilterNode_Tick 1 \<lparr>Id_turn = 1\<rparr> id
       \<lparr>source = 0, filter_fn = example_accept, deps = [2, 4]\<rparr> example_heap
     = (example_heap(1 := \<lparr>events = [8], curTurnId = 1\<rparr>), [OnNodePulse 1 \<lparr>Id_turn = 1\<rparr>])
   \<and> snd (SyncedEventFilterNode_Tick 1 \<lparr>Id_turn = 1\<rparr> id
       \<lparr>source = 0, filter_fn = example_accept, deps = [4, 4]\<rparr> example_heap)
     = [OnNodeIdlePulse 1 \<lparr>Id_turn = 1\<rparr>]"
  using SyncedEventFilterNode_Tick_result
      [of 1 "\<lparr>Id_turn = 1\<rparr>" id "\<lparr>source = 0, filter_fn = example_accept, deps = [2, 4]\<rparr>"
          example_heap]
    SyncedEventFilterNode_Tick_result
      [of 1 "\<lparr>Id_turn = 1\<rparr>" id "\<lparr>source = 0, filter_fn = example_accept, deps = [4, 4]\<rparr>"
          example_heap]
  by (simp add: SyncedEventFilterNode_Tick_def example_heap_def example_accept_def Let_def
      on_node_def SetCurrentTurn_unfold fun_eq_iff)

end
